theory Spec2Isabelle
  imports Complex_Main
begin

section \<open>The vector threshold speed function of the level-set segmentation\<close>

text \<open>
  The class \<open>VectorThresholdSegmentationLevelSetFunction\<close> of
  \<open>itkVectorThresholdSegmentationLevelSetFunction.h\<close> holds a threshold and a Mahalanobis
  distance function, and fills the speed image of its superclass with the threshold minus
  the distance of each feature pixel. A value of a scalar type of the templates
  (\<open>ScalarValueType\<close>, the components of \<open>FeatureScalarType\<close>, the entries of the mean
  vector and of the covariance matrix) is modelled by the real number it denotes; vectors
  are lists of components and a matrix is the list of its rows. Where the header passes a
  \<open>double\<close> literal to a parameter of type \<open>ScalarValueType\<close>, the conversion is
  modelled by rounding.
\<close>

subsection \<open>Scalar types and the conversion of literals\<close>

text \<open>
  \<open>ScalarValueType\<close> is the pixel type of the level-set image, \<open>float\<close> or
  \<open>double\<close>. A binary floating-point format with \<open>p\<close> significant bits and least
  exponent \<open>emin\<close> holds the multiples of the unit in the last place of each binade;
  \<open>round_to_binary\<close> takes a real number to the nearest of them, a tie going to the
  even one, as the default rounding of IEEE 754 does. Numbers beyond the largest finite
  value of the format do not occur here. A decimal literal of the header denotes the
  \<open>double\<close> nearest to it, and \<open>of_double\<close> is the conversion of a \<open>double\<close> to
  \<open>ScalarValueType\<close>.
\<close>

datatype ScalarValueType = Float | Double

definition round_half_even :: "real \<Rightarrow> int" where
  "round_half_even y =
     (let f = \<lfloor>y\<rfloor> in
      if y - of_int f < 1 / 2 then f
      else if 1 / 2 < y - of_int f then f + 1
      else if even f then f else f + 1)"

definition pow2 :: "int \<Rightarrow> real" where
  "pow2 e = (if 0 \<le> e then 2 ^ nat e else 1 / 2 ^ nat (- e))"

definition round_to_binary :: "nat \<Rightarrow> int \<Rightarrow> real \<Rightarrow> real" where
  "round_to_binary p emin x =
     (if x = 0 then 0
      else let e = max \<lfloor>log 2 \<bar>x\<bar>\<rfloor> emin;
               ulp = pow2 (e - int p + 1)
           in of_int (round_half_even (x / ulp)) * ulp)"

definition double_literal :: "real \<Rightarrow> real" where
  "double_literal d = round_to_binary 53 (- 1022) d"

definition of_double :: "ScalarValueType \<Rightarrow> real \<Rightarrow> real" where
  "of_double S x = (case S of Double \<Rightarrow> x | Float \<Rightarrow> round_to_binary 24 (- 126) x)"

subsection \<open>Template parameters and object state\<close>

text \<open>
  The template parameter \<open>TFeatureImageType\<close> is an image type: it fixes the number of
  spatial axes of the image, which is what the static \<open>GetImageDimension()\<close> returns, and
  the number of components of one pixel, the channels of \<open>FeatureScalarType\<close>. The two
  numbers are independent of each other.
\<close>

record FeatureImageType =
  GetImageDimension :: nat
  NumberOfComponents :: nat

text \<open>
  Modelled from the spec: the state of \<open>MahalanobisDistanceMembershipFunction\<close>, whose
  header is not part of the sources. It owns the mean vector and the covariance matrix.
\<close>

record MahalanobisDistanceMembershipFunction =
  m_Mean :: "real list"
  m_Covariance :: "real list list"

text \<open>
  Modelled from the spec: the members of the superclass \<open>SegmentationLevelSetFunction\<close>
  (and of \<open>LevelSetFunction\<close> above it) that this class reads and writes: the three
  weights handed to the evolution engine, the feature image and the speed image. The
  feature image is the list of its pixels in the order of the image region, a pixel being
  the list of its components; the speed image is a store from the position of a pixel to
  a scalar.
\<close>

record SegmentationLevelSetFunction =
  m_AdvectionWeight :: real
  m_PropagationWeight :: real
  m_CurvatureWeight :: real
  m_FeatureImage :: "real list list"
  m_SpeedImage :: "nat \<Rightarrow> real"

record VectorThresholdSegmentationLevelSetFunction = SegmentationLevelSetFunction +
  m_Mahalanobis :: MahalanobisDistanceMembershipFunction
  m_Threshold :: real

datatype error = ConfigurationError | NumericalError

subsection \<open>Setters of the collaborators\<close>

text \<open>
  Modelled from the spec: \<open>setAdvectionWeight\<close>, \<open>setPropagationWeight\<close> and
  \<open>setCurvatureWeight\<close> of the evolution-engine interface store one weight each.
\<close>

definition SetAdvectionWeight ::
  "real \<Rightarrow> 'a SegmentationLevelSetFunction_scheme \<Rightarrow> 'a SegmentationLevelSetFunction_scheme" where
  "SetAdvectionWeight w this = this\<lparr>m_AdvectionWeight := w\<rparr>"

definition SetPropagationWeight ::
  "real \<Rightarrow> 'a SegmentationLevelSetFunction_scheme \<Rightarrow> 'a SegmentationLevelSetFunction_scheme" where
  "SetPropagationWeight w this = this\<lparr>m_PropagationWeight := w\<rparr>"

definition SetCurvatureWeight ::
  "real \<Rightarrow> 'a SegmentationLevelSetFunction_scheme \<Rightarrow> 'a SegmentationLevelSetFunction_scheme" where
  "SetCurvatureWeight w this = this\<lparr>m_CurvatureWeight := w\<rparr>"

text \<open>
  Modelled from the spec: \<open>setMean\<close> and \<open>setCovariance\<close> of the distance model replace
  the mean and the covariance wholesale and enforce no length constraint.
\<close>

definition Mahalanobis_SetMean ::
  "real list \<Rightarrow> MahalanobisDistanceMembershipFunction \<Rightarrow> MahalanobisDistanceMembershipFunction" where
  "Mahalanobis_SetMean mean M = M\<lparr>m_Mean := mean\<rparr>"

definition Mahalanobis_SetCovariance ::
  "real list list \<Rightarrow> MahalanobisDistanceMembershipFunction \<Rightarrow> MahalanobisDistanceMembershipFunction" where
  "Mahalanobis_SetCovariance cov M = M\<lparr>m_Covariance := cov\<rparr>"

text \<open>
  Modelled from the spec: \<open>MahalanobisFunctionType::New()\<close>. The constructor of this
  class overwrites both members at once, so the fresh object starts empty here.
\<close>

definition Mahalanobis_New :: MahalanobisDistanceMembershipFunction where
  "Mahalanobis_New = \<lparr>m_Mean = [], m_Covariance = []\<rparr>"

subsection \<open>The members written in the header\<close>

definition SetMean ::
  "real list \<Rightarrow> VectorThresholdSegmentationLevelSetFunction \<Rightarrow> VectorThresholdSegmentationLevelSetFunction" where
  "SetMean mean this = this\<lparr>m_Mahalanobis := Mahalanobis_SetMean mean (m_Mahalanobis this)\<rparr>"

definition GetMean :: "VectorThresholdSegmentationLevelSetFunction \<Rightarrow> real list" where
  "GetMean this = m_Mean (m_Mahalanobis this)"

definition SetCovariance ::
  "real list list \<Rightarrow> VectorThresholdSegmentationLevelSetFunction \<Rightarrow> VectorThresholdSegmentationLevelSetFunction" where
  "SetCovariance cov this = this\<lparr>m_Mahalanobis := Mahalanobis_SetCovariance cov (m_Mahalanobis this)\<rparr>"

definition GetCovariance :: "VectorThresholdSegmentationLevelSetFunction \<Rightarrow> real list list" where
  "GetCovariance this = m_Covariance (m_Mahalanobis this)"

definition SetThreshold ::
  "real \<Rightarrow> VectorThresholdSegmentationLevelSetFunction \<Rightarrow> VectorThresholdSegmentationLevelSetFunction" where
  "SetThreshold thr this = this\<lparr>m_Threshold := thr\<rparr>"

definition GetThreshold :: "VectorThresholdSegmentationLevelSetFunction \<Rightarrow> real" where
  "GetThreshold this = m_Threshold this"

text \<open>
  \<open>Initialize\<close> first runs \<open>Superclass::Initialize(r)\<close>, which is not part of the
  sources and is a parameter here: any function on the members of the superclass. The
  radius is passed through unchanged. Then the three weights are stored: the zero and
  the one of \<open>ScalarValueType\<close>, and the product \<open>-1.0 * One\<close>, which is \<open>-1\<close> in
  \<open>double\<close> and in \<open>float\<close> alike.
\<close>

definition Initialize ::
  "('r \<Rightarrow> SegmentationLevelSetFunction \<Rightarrow> SegmentationLevelSetFunction) \<Rightarrow> 'r \<Rightarrow>
   VectorThresholdSegmentationLevelSetFunction \<Rightarrow> VectorThresholdSegmentationLevelSetFunction" where
  "Initialize Superclass_Initialize r this =
     (let this1 = SegmentationLevelSetFunction.extend
                    (Superclass_Initialize r (SegmentationLevelSetFunction.truncate this))
                    (SegmentationLevelSetFunction.more this);
          this2 = SetAdvectionWeight 0 this1;
          this3 = SetPropagationWeight (- 1 * 1) this2
      in SetCurvatureWeight 1 this3)"

text \<open>
  The constructor runs after the constructors of the superclasses, whose result is the
  parameter \<open>base\<close>. It builds a mean vector and a covariance matrix sized by
  \<open>FeatureImageType::GetImageDimension()\<close>, fills both with zero, hands them to a new
  distance function, and stores the advection weight, the propagation weight and the
  threshold. It stores no curvature weight. The three stored values are the \<open>double\<close>
  literals \<open>0.0\<close>, \<open>1.0\<close> and \<open>1.8\<close>, converted to \<open>ScalarValueType\<close> where they are
  passed. The member \<open>m_Threshold\<close> has no value before \<open>SetThreshold(1.8)\<close> gives it
  one; the \<open>0\<close> below stands for that and is overwritten.
\<close>

definition Constructor ::
  "ScalarValueType \<Rightarrow> FeatureImageType \<Rightarrow> SegmentationLevelSetFunction \<Rightarrow>
   VectorThresholdSegmentationLevelSetFunction" where
  "Constructor S T base =
     (let mean = replicate (GetImageDimension T) (0::real);
          covariance = replicate (GetImageDimension T) (replicate (GetImageDimension T) (0::real));
          mahalanobis = Mahalanobis_SetCovariance covariance (Mahalanobis_SetMean mean Mahalanobis_New);
          this = SegmentationLevelSetFunction.extend base
                   \<lparr>m_Mahalanobis = mahalanobis, m_Threshold = 0\<rparr>;
          this1 = SetAdvectionWeight (of_double S (double_literal 0.0)) this;
          this2 = SetPropagationWeight (of_double S (double_literal 1.0)) this1
      in SetThreshold (of_double S (double_literal 1.8)) this2)"

subsection \<open>Vectors and linear systems\<close>

text \<open>
  Modelled from the spec: the arithmetic behind the distance formula, none of which is
  in the sources: the inner product, the product of a matrix with a vector, the
  difference of two vectors, and the solution of a linear system, which gives
  \<open>\<Sigma>\<^sup>-\<^sup>1 y\<close> as the vector \<open>z\<close> with \<open>\<Sigma> z = y\<close>.
\<close>

fun dot :: "real list \<Rightarrow> real list \<Rightarrow> real" where
  "dot (a # u) (b # v) = a * b + dot u v"
| "dot _ _ = 0"

definition mat_vec :: "real list list \<Rightarrow> real list \<Rightarrow> real list" where
  "mat_vec A z = map (\<lambda>r. dot r z) A"

fun vec_sub :: "real list \<Rightarrow> real list \<Rightarrow> real list" where
  "vec_sub (a # u) (b # v) = (a - b) # vec_sub u v"
| "vec_sub _ _ = []"

text \<open>
  A matrix of dimension \<open>D\<close> has \<open>D\<close> rows of \<open>D\<close> entries. It is singular when it has
  the eigenvalue zero: some vector other than the zero vector is sent to the zero vector.
  It is symmetric when its entry at \<open>(i, j)\<close> is its entry at \<open>(j, i)\<close>, positive
  semi-definite when its quadratic form is nowhere negative, and positive definite when
  its quadratic form is positive at every vector other than the zero vector.
\<close>

definition square :: "nat \<Rightarrow> real list list \<Rightarrow> bool" where
  "square D A = (length A = D \<and> list_all (\<lambda>r. length r = D) A)"

definition singular :: "nat \<Rightarrow> real list list \<Rightarrow> bool" where
  "singular D A =
     (\<exists>z. length z = D \<and> z \<noteq> replicate D 0 \<and> mat_vec A z = replicate D 0)"

definition positive_semidefinite :: "nat \<Rightarrow> real list list \<Rightarrow> bool" where
  "positive_semidefinite D A = (\<forall>z. length z = D \<longrightarrow> 0 \<le> dot (mat_vec A z) z)"

definition positive_definite :: "nat \<Rightarrow> real list list \<Rightarrow> bool" where
  "positive_definite D A =
     (\<forall>z. length z = D \<and> z \<noteq> replicate D 0 \<longrightarrow> 0 < dot (mat_vec A z) z)"

definition symmetric :: "nat \<Rightarrow> real list list \<Rightarrow> bool" where
  "symmetric D A = (\<forall>i<D. \<forall>j<D. A ! i ! j = A ! j ! i)"

text \<open>
  A linear equation is a row of coefficients with its right-hand side. A system in
  \<open>n\<close> unknowns is solved by elimination: the first equation whose leading coefficient
  is not zero is the pivot, the first unknown is eliminated from the other equations,
  the remaining system in \<open>n - 1\<close> unknowns is solved, and the first unknown is read off
  the pivot. There is no solution to return when no equation has a leading coefficient
  other than zero.
\<close>

type_synonym equation = "real list \<times> real"

fun lead :: "real list \<Rightarrow> real" where
  "lead [] = 0"
| "lead (a # _) = a"

fun find_pivot :: "equation list \<Rightarrow> (equation \<times> equation list) option" where
  "find_pivot [] = None"
| "find_pivot (e # es) =
     (if lead (fst e) \<noteq> 0 then Some (e, es)
      else case find_pivot es of
             None \<Rightarrow> None
           | Some (p, rest) \<Rightarrow> Some (p, e # rest))"

fun row_sub :: "real \<Rightarrow> real list \<Rightarrow> real list \<Rightarrow> real list" where
  "row_sub f (c # cs) (a # as) = (c - f * a) # row_sub f cs as"
| "row_sub f _ _ = []"

definition eliminate :: "equation \<Rightarrow> equation \<Rightarrow> equation" where
  "eliminate p e =
     (let f = lead (fst e) / lead (fst p)
      in (row_sub f (tl (fst e)) (tl (fst p)), snd e - f * snd p))"

fun solve :: "nat \<Rightarrow> equation list \<Rightarrow> real list option" where
  "solve 0 es = Some []"
| "solve (Suc n) es =
     (case find_pivot es of
        None \<Rightarrow> None
      | Some (p, rest) \<Rightarrow>
          (case solve n (map (eliminate p) rest) of
             None \<Rightarrow> None
           | Some z \<Rightarrow> Some ((snd p - dot (tl (fst p)) z) / lead (fst p) # z)))"

text \<open>
  Whether a matrix is positive definite is decided by elimination on its quadratic form.
  With \<open>a\<close> the leading entry, \<open>s\<close> the mean of the rest of the first row and the rest
  of the first column, and \<open>M\<close> the matrix without its first row and column, the form
  at \<open>(z\<^sub>1, z')\<close> is \<open>a (z\<^sub>1 + s \<cdot> z' / a)\<^sup>2\<close> plus the form of \<open>M - s s\<^sup>t / a\<close> at
  \<open>z'\<close>. So the matrix is positive definite exactly when \<open>a\<close> is positive and
  \<open>M - s s\<^sup>t / a\<close> is positive definite.
\<close>

fun vec_mean :: "real list \<Rightarrow> real list \<Rightarrow> real list" where
  "vec_mean (a # u) (b # v) = (a + b) / 2 # vec_mean u v"
| "vec_mean _ _ = []"

fun schur_rows :: "real \<Rightarrow> real list \<Rightarrow> real list \<Rightarrow> real list list \<Rightarrow> real list list" where
  "schur_rows a s (si # ss) (row # rows) = row_sub (si / a) (tl row) s # schur_rows a s ss rows"
| "schur_rows a s _ _ = []"

definition schur :: "real list \<Rightarrow> real list list \<Rightarrow> real list list" where
  "schur row rows =
     (let s = vec_mean (tl row) (map lead rows) in schur_rows (lead row) s s rows)"

fun is_positive_definite :: "nat \<Rightarrow> real list list \<Rightarrow> bool" where
  "is_positive_definite 0 A = True"
| "is_positive_definite (Suc n) [] = False"
| "is_positive_definite (Suc n) (row # rows) =
     (0 < lead row \<and> is_positive_definite n (schur row rows))"

subsection \<open>The distance and the speed image\<close>

text \<open>
  Modelled from the spec: \<open>distance\<close> of the statistical distance model, the
  \<open>Evaluate\<close> of \<open>MahalanobisDistanceMembershipFunction\<close>, whose code is not part of
  the sources. It returns \<open>sqrt ((x - mean)\<^sup>t \<Sigma>\<^sup>-\<^sup>1 (x - mean))\<close>, where the vector
  \<open>\<Sigma>\<^sup>-\<^sup>1 (x - mean)\<close> is the solution \<open>z\<close> of \<open>\<Sigma> z = x - mean\<close>. It fails when the
  dimensions of the feature vector, the mean and the covariance disagree, and when the
  covariance is singular or otherwise not positive definite. The error-handling design
  and the mismatch scenario of the specification name the first failure a
  \<open>ConfigurationError\<close>, raised at the point of use; the contract of \<open>distance\<close> alone
  speaks of a \<open>NumericalError\<close> kind for it, and the model follows the two places that
  agree. A covariance that is not invertible or not positive definite is a
  \<open>NumericalError\<close>; a singular matrix is never positive definite
  (\<open>definite_regular\<close>). Under a positive definite covariance the quadratic form under
  the root is never negative.
\<close>

definition Evaluate :: "MahalanobisDistanceMembershipFunction \<Rightarrow> real list \<Rightarrow> error + real" where
  "Evaluate M x =
     (let D = length (m_Mean M) in
      if length x = D \<and> square D (m_Covariance M) then
        if is_positive_definite D (m_Covariance M) then
          let y = vec_sub x (m_Mean M) in
          case solve D (zip (m_Covariance M) y) of
            None \<Rightarrow> Inl NumericalError
          | Some z \<Rightarrow> Inr (sqrt (dot y z))
        else Inl NumericalError
      else Inl ConfigurationError)"

text \<open>
  Modelled from the spec: \<open>computeSpeedImage\<close>, the \<open>CalculateSpeedImage\<close> that the
  header declares and whose body is not part of the sources. For every pixel \<open>p\<close> of the
  feature image, in the order of the image region, the threshold minus the distance of
  the feature vector at \<open>p\<close> is written into the speed image at \<open>p\<close>. An error of the
  distance aborts the whole computation, and no speed image is handed back.
\<close>

fun speed_sweep ::
  "MahalanobisDistanceMembershipFunction \<Rightarrow> real \<Rightarrow> nat \<Rightarrow> real list list \<Rightarrow>
   (nat \<Rightarrow> real) \<Rightarrow> error + (nat \<Rightarrow> real)" where
  "speed_sweep M T p [] S = Inr S"
| "speed_sweep M T p (x # xs) S =
     (case Evaluate M x of
        Inl e \<Rightarrow> Inl e
      | Inr d \<Rightarrow> speed_sweep M T (Suc p) xs (S(p := T - d)))"

definition CalculateSpeedImage ::
  "VectorThresholdSegmentationLevelSetFunction \<Rightarrow> error + VectorThresholdSegmentationLevelSetFunction" where
  "CalculateSpeedImage this =
     (case speed_sweep (m_Mahalanobis this) (m_Threshold this) 0 (m_FeatureImage this)
             (m_SpeedImage this) of
        Inl e \<Rightarrow> Inl e
      | Inr S \<Rightarrow> Inr (this\<lparr>m_SpeedImage := S\<rparr>))"

subsection \<open>Example objects\<close>

text \<open>
  A two-dimensional image type with three channels per pixel; the members of the
  superclass with every weight zero and no pixel yet; and an object over one-channel
  pixels, configured through the setters with threshold \<open>2\<close>, mean \<open>0\<close> and variance
  \<open>1\<close>, whose feature image has two pixels.
\<close>

definition example_type :: FeatureImageType where
  "example_type = \<lparr>GetImageDimension = 2, NumberOfComponents = 3\<rparr>"

definition example_base :: SegmentationLevelSetFunction where
  "example_base =
     \<lparr>m_AdvectionWeight = 0, m_PropagationWeight = 0, m_CurvatureWeight = 0,
      m_FeatureImage = [], m_SpeedImage = (\<lambda>p. 0)\<rparr>"

definition example_function :: VectorThresholdSegmentationLevelSetFunction where
  "example_function =
     SetCovariance [[1]] (SetMean [0]
       (SetThreshold 2
          (Constructor Float \<lparr>GetImageDimension = 1, NumberOfComponents = 1\<rparr>
             (example_base\<lparr>m_FeatureImage := [[2], [1]]\<rparr>))))"



definition example_result :: VectorThresholdSegmentationLevelSetFunction where
  "example_result = example_function\<lparr>m_SpeedImage := (\<lambda>p. 0)(0 := 2 - 2, 1 := 2 - 1)\<rparr>"

definition example_model :: MahalanobisDistanceMembershipFunction where
  "example_model = \<lparr>m_Mean = [0, 0], m_Covariance = [[1, 0], [0, 1]]\<rparr>"

section \<open>Properties of the linear algebra\<close>

subsection \<open>Inner products and row operations\<close>


lemma dot_commute: "dot u v = dot v u"
  by (induction u v rule: dot.induct) (auto elim: dot.elims)

lemma dot_zero_right: "dot r (replicate n 0) = 0"
proof (induction r arbitrary: n)
  case Nil
  show ?case by simp
next
  case (Cons a r)
  show ?case by (cases n) (simp_all add: Cons.IH)
qed

lemma dot_zero_left: "dot (replicate n 0) r = 0"
  by (simp add: dot_commute [of "replicate n 0"] dot_zero_right)

lemma length_row_sub: "length (row_sub f cs as) = min (length cs) (length as)"
  by (induction f cs as rule: row_sub.induct) simp_all

lemma dot_row_sub:
  "length cs = length as \<Longrightarrow> dot (row_sub f cs as) z = dot cs z - f * dot as z"
proof (induction cs as arbitrary: z rule: list_induct2)
  case Nil
  show ?case by simp
next
  case (Cons c cs a as)
  show ?case by (cases z) (simp_all add: Cons.IH algebra_simps)
qed

lemma length_vec_sub: "length (vec_sub u v) = min (length u) (length v)"
  by (induction u v rule: vec_sub.induct) simp_all

lemma vec_sub_self: "vec_sub u u = replicate (length u) 0"
  by (induction u) simp_all

lemma dot_Cons_right: "length r = Suc n \<Longrightarrow> dot r (w # ws) = lead r * w + dot (tl r) ws"
  by (cases r) simp_all

lemma find_pivot_Some:
  "find_pivot es = Some (p, rest) \<Longrightarrow>
     lead (fst p) \<noteq> 0 \<and> set es = insert p (set rest) \<and> length es = Suc (length rest)"
  by (induction es arbitrary: p rest) (auto split: if_splits option.splits)

lemma find_pivot_None: "find_pivot es = None \<Longrightarrow> e \<in> set es \<Longrightarrow> lead (fst e) = 0"
  by (induction es) (auto split: if_splits option.splits)

lemma fst_eliminate: "fst (eliminate p e) = row_sub (lead (fst e) / lead (fst p)) (tl (fst e)) (tl (fst p))"
  by (simp add: eliminate_def)

lemma snd_eliminate: "snd (eliminate p e) = snd e - lead (fst e) / lead (fst p) * snd p"
  by (simp add: eliminate_def)

lemma length_solve: "solve n es = Some z \<Longrightarrow> length z = n"
  by (induction n arbitrary: es z) (auto split: option.splits)

subsection \<open>The elimination solves the system\<close>

lemma eliminate_rows:
  assumes "\<forall>e\<in>set es. length (fst e) = Suc n" and "length (fst p) = Suc n"
  shows "\<forall>e\<in>set (map (eliminate p) es). length (fst e) = n"
  using assms by (auto simp: fst_eliminate length_row_sub)

lemma dot_eliminate:
  assumes "length (fst e) = Suc n" and "length (fst p) = Suc n"
  shows "dot (fst (eliminate p e)) w =
         dot (tl (fst e)) w - lead (fst e) / lead (fst p) * dot (tl (fst p)) w"
  using assms by (simp add: fst_eliminate dot_row_sub)

lemma solve_sound:
  assumes "\<forall>e\<in>set es. length (fst e) = n" and "length es = n" and "solve n es = Some z"
  shows "\<forall>e\<in>set es. dot (fst e) z = snd e"
  using assms
proof (induction n arbitrary: es z)
  case 0
  then show ?case by simp
next
  case (Suc n)
  from Suc.prems(3) obtain p rest z' where
    piv: "find_pivot es = Some (p, rest)" and
    rec: "solve n (map (eliminate p) rest) = Some z'" and
    z: "z = (snd p - dot (tl (fst p)) z') / lead (fst p) # z'"
    by (auto split: option.splits)
  from find_pivot_Some [OF piv] have
    nz: "lead (fst p) \<noteq> 0" and es: "set es = insert p (set rest)" and
    len: "length es = Suc (length rest)"
    by simp_all
  have lp: "length (fst p) = Suc n" using Suc.prems(1) es by simp
  have lrest: "\<forall>e\<in>set rest. length (fst e) = Suc n" using Suc.prems(1) es by simp
  have IH: "\<forall>e\<in>set (map (eliminate p) rest). dot (fst e) z' = snd e"
    using Suc.IH [OF eliminate_rows [OF lrest lp] _ rec] len Suc.prems(2) by simp
  have pivot: "dot (fst p) z = snd p"
    using nz by (simp add: z dot_Cons_right [OF lp])
  have others: "dot (fst e) z = snd e" if "e \<in> set rest" for e
  proof -
    have le: "length (fst e) = Suc n" using lrest that by simp
    have "dot (fst (eliminate p e)) z' = snd (eliminate p e)" using IH that by simp
    then have "dot (tl (fst e)) z' - lead (fst e) / lead (fst p) * dot (tl (fst p)) z' =
               snd e - lead (fst e) / lead (fst p) * snd p"
      by (simp add: dot_eliminate [OF le lp] snd_eliminate)
    then show ?thesis
      using nz by (simp add: z dot_Cons_right [OF le] field_simps)
  qed
  show ?case using pivot others es by auto
qed

lemma solve_unique:
  assumes "\<forall>e\<in>set es. length (fst e) = n" and "solve n es = Some z" and "length w = n"
    and "\<forall>e\<in>set es. dot (fst e) w = 0"
  shows "w = replicate n 0"
  using assms
proof (induction n arbitrary: es z w)
  case 0
  then show ?case by simp
next
  case (Suc n)
  from Suc.prems(2) obtain p rest z' where
    piv: "find_pivot es = Some (p, rest)" and
    rec: "solve n (map (eliminate p) rest) = Some z'"
    by (auto split: option.splits)
  from find_pivot_Some [OF piv] have
    nz: "lead (fst p) \<noteq> 0" and es: "set es = insert p (set rest)"
    by simp_all
  from Suc.prems(3) obtain w1 w' where w: "w = w1 # w'" and lw': "length w' = n"
    by (cases w) auto
  have lp: "length (fst p) = Suc n" using Suc.prems(1) es by simp
  have lrest: "\<forall>e\<in>set rest. length (fst e) = Suc n" using Suc.prems(1) es by simp
  have "dot (fst p) (w1 # w') = 0"
    using Suc.prems(4) es by (simp add: w)
  then have pivot: "lead (fst p) * w1 + dot (tl (fst p)) w' = 0"
    by (simp add: dot_Cons_right [OF lp])
  have "dot (fst (eliminate p e)) w' = 0" if "e \<in> set rest" for e
  proof -
    have le: "length (fst e) = Suc n" using lrest that by simp
    have "dot (fst e) (w1 # w') = 0"
      using Suc.prems(4) es that by (simp add: w)
    then have "lead (fst e) * w1 + dot (tl (fst e)) w' = 0"
      by (simp add: dot_Cons_right [OF le])
    moreover have "dot (tl (fst p)) w' = - (lead (fst p) * w1)" using pivot by simp
    ultimately show ?thesis
      using nz by (simp add: dot_eliminate [OF le lp] field_simps)
  qed
  then have "\<forall>e\<in>set (map (eliminate p) rest). dot (fst e) w' = 0" by simp
  from Suc.IH [OF eliminate_rows [OF lrest lp] rec lw' this]
  have w': "w' = replicate n 0" .
  with pivot nz have "w1 = 0" by (simp add: dot_zero_right)
  with w' show ?case by (simp add: w)
qed

lemma solve_None:
  assumes "\<forall>e\<in>set es. length (fst e) = n" and "solve n es = None"
  shows "\<exists>w. length w = n \<and> w \<noteq> replicate n 0 \<and> (\<forall>e\<in>set es. dot (fst e) w = 0)"
  using assms
proof (induction n arbitrary: es)
  case 0
  then show ?case by simp
next
  case (Suc n)
  show ?case
  proof (cases "find_pivot es")
    case None
    have "\<forall>e\<in>set es. dot (fst e) (1 # replicate n 0) = 0"
    proof
      fix e assume e: "e \<in> set es"
      then have "length (fst e) = Suc n" using Suc.prems(1) by simp
      from dot_Cons_right [OF this] find_pivot_None [OF None e]
      show "dot (fst e) (1 # replicate n 0) = 0" by (simp add: dot_zero_right)
    qed
    then show ?thesis
      by (intro exI [of _ "1 # replicate n 0"]) simp
  next
    case (Some pr)
    obtain p rest where pr: "pr = (p, rest)" by (cases pr)
    with Some have piv: "find_pivot es = Some (p, rest)" by simp
    from find_pivot_Some [OF piv] have
      nz: "lead (fst p) \<noteq> 0" and es: "set es = insert p (set rest)"
      by simp_all
    have lp: "length (fst p) = Suc n" using Suc.prems(1) es by simp
    have lrest: "\<forall>e\<in>set rest. length (fst e) = Suc n" using Suc.prems(1) es by simp
    have rec: "solve n (map (eliminate p) rest) = None"
      using Suc.prems(2) piv by (simp split: option.splits)
    from Suc.IH [OF eliminate_rows [OF lrest lp] rec] obtain w' where
      lw': "length w' = n" and w'nz: "w' \<noteq> replicate n 0" and
      ker: "\<forall>e\<in>set (map (eliminate p) rest). dot (fst e) w' = 0"
      by blast
    define w1 where "w1 = - dot (tl (fst p)) w' / lead (fst p)"
    have pivot: "dot (fst p) (w1 # w') = 0"
      using nz by (simp add: w1_def dot_Cons_right [OF lp])
    have others: "dot (fst e) (w1 # w') = 0" if "e \<in> set rest" for e
    proof -
      have le: "length (fst e) = Suc n" using lrest that by simp
      have "dot (fst (eliminate p e)) w' = 0" using ker that by simp
      then have "dot (tl (fst e)) w' = lead (fst e) / lead (fst p) * dot (tl (fst p)) w'"
        by (simp add: dot_eliminate [OF le lp])
      then show ?thesis
        using nz by (simp add: w1_def dot_Cons_right [OF le] field_simps)
    qed
    show ?thesis
      using lw' w'nz pivot others es
      by (intro exI [of _ "w1 # w'"]) auto
  qed
qed

subsection \<open>Singular and regular matrices\<close>

lemma zip_row: "e \<in> set (zip A y) \<Longrightarrow> fst e \<in> set A"
  using set_zip_leftD [of "fst e" "snd e" A y] by simp

lemma square_rows:
  assumes "square D A" and "e \<in> set (zip A y)"
  shows "length (fst e) = D"
proof -
  from assms(2) have "fst e \<in> set A" by (rule zip_row)
  with assms(1) show ?thesis by (simp add: square_def list_all_iff)
qed

lemma mat_vec_zip:
  "length A = length y \<Longrightarrow> (mat_vec A z = y) = (\<forall>e\<in>set (zip A y). dot (fst e) z = snd e)"
  by (induction A y rule: list_induct2) (auto simp: mat_vec_def)

lemma mat_vec_zero:
  "length A = D \<Longrightarrow> (mat_vec A w = replicate D 0) = (\<forall>r\<in>set A. dot r w = 0)"
  by (induction A arbitrary: D) (auto simp: mat_vec_def)

lemma rows_of_zip: "length A = length y \<Longrightarrow> r \<in> set A \<Longrightarrow> \<exists>b. (r, b) \<in> set (zip A y)"
  by (induction A y rule: list_induct2) auto

lemma solve_singular:
  assumes sq: "square D A" and sing: "singular D A"
  shows "solve D (zip A y) = None"
proof (cases "solve D (zip A y)")
  case None
  then show ?thesis .
next
  case (Some z)
  from sing obtain w where
    lw: "length w = D" and wnz: "w \<noteq> replicate D 0" and Aw: "mat_vec A w = replicate D 0"
    by (auto simp: singular_def)
  from sq have lA: "length A = D" by (simp add: square_def)
  from Aw have ker: "\<forall>r\<in>set A. dot r w = 0" by (simp add: mat_vec_zero [OF lA])
  have "\<forall>e\<in>set (zip A y). dot (fst e) w = 0"
  proof
    fix e assume "e \<in> set (zip A y)"
    then have "fst e \<in> set A" by (rule zip_row)
    with ker show "dot (fst e) w = 0" by simp
  qed
  moreover have "\<forall>e\<in>set (zip A y). length (fst e) = D"
    using square_rows [OF sq] by blast
  ultimately have "w = replicate D 0" using solve_unique Some lw by blast
  with wnz show ?thesis by simp
qed

lemma solve_regular:
  assumes sq: "square D A" and reg: "\<not> singular D A" and ly: "length y = D"
  shows "\<exists>z. solve D (zip A y) = Some z \<and> length z = D \<and> mat_vec A z = y"
proof (cases "solve D (zip A y)")
  case None
  from sq have lA: "length A = D" by (simp add: square_def)
  have rows: "\<forall>e\<in>set (zip A y). length (fst e) = D"
    using square_rows [OF sq] by blast
  from solve_None [OF rows None] obtain w where
    lw: "length w = D" and wnz: "w \<noteq> replicate D 0" and
    ker: "\<forall>e\<in>set (zip A y). dot (fst e) w = 0"
    by blast
  have "\<forall>r\<in>set A. dot r w = 0"
  proof
    fix r assume "r \<in> set A"
    with lA ly obtain b where "(r, b) \<in> set (zip A y)"
      using rows_of_zip [of A y r] by auto
    with ker show "dot r w = 0" by fastforce
  qed
  then have "mat_vec A w = replicate D 0" by (simp add: mat_vec_zero [OF lA])
  with lw wnz reg show ?thesis by (auto simp: singular_def)
next
  case (Some z)
  from sq have lA: "length A = D" by (simp add: square_def)
  have rows: "\<forall>e\<in>set (zip A y). length (fst e) = D"
    using square_rows [OF sq] by blast
  have "length (zip A y) = D" using lA ly by simp
  from solve_sound [OF rows this Some]
  have "mat_vec A z = y" using lA ly by (simp add: mat_vec_zip)
  with Some length_solve [OF Some] show ?thesis by simp
qed

text \<open>
  For a regular matrix the elimination returns the one vector that the matrix sends to
  the right-hand side: \<open>solve\<close> computes \<open>A\<^sup>-\<^sup>1 y\<close>.
\<close>

lemma dot_vec_sub:
  "length z = length z0 \<Longrightarrow> dot r (vec_sub z z0) = dot r z - dot r z0"
proof (induction z z0 arbitrary: r rule: list_induct2)
  case Nil
  show ?case by simp
next
  case (Cons a z b z0)
  show ?case by (cases r) (simp_all add: Cons.IH algebra_simps)
qed

lemma vec_sub_zero:
  "length z = length z0 \<Longrightarrow> vec_sub z z0 = replicate (length z) 0 \<Longrightarrow> z = z0"
  by (induction z z0 rule: list_induct2) simp_all

lemma solve_inverse:
  assumes sq: "square D A" and reg: "\<not> singular D A" and lz: "length z = D"
  shows "solve D (zip A (mat_vec A z)) = Some z"
proof -
  from sq have lA: "length A = D" by (simp add: square_def)
  then have "length (mat_vec A z) = D" by (simp add: mat_vec_def)
  from solve_regular [OF sq reg this] obtain z0 where
    z0: "solve D (zip A (mat_vec A z)) = Some z0" and lz0: "length z0 = D" and
    Az0: "mat_vec A z0 = mat_vec A z"
    by blast
  have "\<forall>r\<in>set A. dot r (vec_sub z z0) = 0"
  proof
    fix r assume "r \<in> set A"
    with Az0 have "dot r z0 = dot r z" by (simp add: mat_vec_def)
    then show "dot r (vec_sub z z0) = 0" using lz lz0 by (simp add: dot_vec_sub)
  qed
  then have "mat_vec A (vec_sub z z0) = replicate D 0" by (simp add: mat_vec_zero [OF lA])
  moreover have "length (vec_sub z z0) = D" using lz lz0 by (simp add: length_vec_sub)
  ultimately have "vec_sub z z0 = replicate D 0" using reg by (auto simp: singular_def)
  with lz lz0 have "z = z0" using vec_sub_zero [of z z0] by simp
  with z0 show ?thesis by simp
qed

subsection \<open>Positive definite matrices\<close>

text \<open>
  The elimination on the quadratic form decides positive definiteness
  (\<open>is_positive_definite_iff\<close>), and a symmetric positive semi-definite matrix that is
  not singular is positive definite (\<open>definite_of_semidefinite\<close>).
\<close>

lemma length_vec_mean: "length (vec_mean u v) = min (length u) (length v)"
  by (induction u v rule: vec_mean.induct) simp_all

lemma dot_vec_mean:
  "length u = length v \<Longrightarrow> dot (vec_mean u v) z = (dot u z + dot v z) / 2"
proof (induction u v arbitrary: z rule: list_induct2)
  case Nil
  show ?case by simp
next
  case (Cons a u b v)
  show ?case by (cases z) (simp_all add: Cons.IH field_simps)
qed

lemma length_schur_rows: "length (schur_rows a s ss rows) = min (length ss) (length rows)"
  by (induction a s ss rows rule: schur_rows.induct) simp_all

lemma schur_rows_square:
  "\<forall>r\<in>set rows. length r = Suc n \<Longrightarrow> length s = n \<Longrightarrow>
     \<forall>r\<in>set (schur_rows a s ss rows). length r = n"
  by (induction a s ss rows rule: schur_rows.induct) (simp_all add: length_row_sub)

lemma mat_vec_Cons:
  "\<forall>r\<in>set rows. length r = Suc n \<Longrightarrow>
     dot (mat_vec rows (z1 # z')) v =
       z1 * dot (map lead rows) v + dot (mat_vec (map tl rows) z') v"
proof (induction rows arbitrary: v)
  case Nil
  show ?case by (simp add: mat_vec_def)
next
  case (Cons r rows)
  from Cons.prems have lr: "length r = Suc n" by simp
  from Cons.prems have IH: "\<And>v. dot (mat_vec rows (z1 # z')) v =
       z1 * dot (map lead rows) v + dot (mat_vec (map tl rows) z') v"
    using Cons.IH by simp
  show ?case
  proof (cases v)
    case Nil
    then show ?thesis by (simp add: mat_vec_def)
  next
    case (Cons b v')
    then show ?thesis
      using IH [of v'] by (simp add: mat_vec_def dot_Cons_right [OF lr] algebra_simps)
  qed
qed

lemma dot_schur_rows:
  "\<forall>r\<in>set rows. length r = Suc n \<Longrightarrow> length s = n \<Longrightarrow>
     dot (mat_vec (schur_rows a s ss rows) z') v =
       dot (mat_vec (map tl (take (length ss) rows)) z') v - dot s z' / a * dot (take (length rows) ss) v"
proof (induction a s ss rows arbitrary: v rule: schur_rows.induct)
  case (1 a s si ss row rows)
  from "1.prems" have lr: "length (tl row) = length s" by simp
  from "1.prems" have IH: "\<And>v. dot (mat_vec (schur_rows a s ss rows) z') v =
       dot (mat_vec (map tl (take (length ss) rows)) z') v - dot s z' / a * dot (take (length rows) ss) v"
    using "1.IH" by simp
  show ?case
  proof (cases v)
    case Nil
    then show ?thesis by (simp add: mat_vec_def)
  next
    case (Cons b v')
    then show ?thesis
      using IH [of v'] by (simp add: mat_vec_def dot_row_sub [OF lr] algebra_simps)
  qed
qed (simp_all add: mat_vec_def)

lemma square_Cons:
  "square (Suc n) (row # rows) \<Longrightarrow>
     length row = Suc n \<and> length rows = n \<and> (\<forall>r\<in>set rows. length r = Suc n)"
  by (simp add: square_def list_all_iff)

lemma square_schur:
  assumes "square (Suc n) (row # rows)"
  shows "square n (schur row rows)"
proof -
  from square_Cons [OF assms] have
    lrow: "length row = Suc n" and lrows: "length rows = n" and
    rows: "\<forall>r\<in>set rows. length r = Suc n"
    by simp_all
  have ls: "length (vec_mean (tl row) (map lead rows)) = n"
    using lrow lrows by (simp add: length_vec_mean)
  show ?thesis
    using schur_rows_square [OF rows ls] ls lrows
    by (simp add: square_def schur_def Let_def length_schur_rows list_all_iff)
qed

lemma quad_expand:
  assumes "square (Suc n) (row # rows)"
  shows "dot (mat_vec (row # rows) (z1 # z')) (z1 # z') =
           lead row * z1 * z1 + 2 * z1 * dot (vec_mean (tl row) (map lead rows)) z' +
           dot (mat_vec (map tl rows) z') z'"
proof -
  from square_Cons [OF assms] have
    lrow: "length row = Suc n" and lrows: "length rows = n" and
    rows: "\<forall>r\<in>set rows. length r = Suc n"
    by simp_all
  have "length (tl row) = length (map lead rows)" using lrow lrows by simp
  from dot_vec_mean [OF this] have
    "dot (vec_mean (tl row) (map lead rows)) z' = (dot (tl row) z' + dot (map lead rows) z') / 2" .
  moreover have "dot (mat_vec (row # rows) (z1 # z')) (z1 # z') =
      dot row (z1 # z') * z1 + dot (mat_vec rows (z1 # z')) z'"
    by (simp add: mat_vec_def)
  ultimately show ?thesis
    by (simp add: mat_vec_Cons [OF rows] dot_Cons_right [OF lrow] algebra_simps)
qed

lemma quad_schur:
  assumes "square (Suc n) (row # rows)"
  shows "dot (mat_vec (schur row rows) z') z' =
           dot (mat_vec (map tl rows) z') z' -
           dot (vec_mean (tl row) (map lead rows)) z' *
           dot (vec_mean (tl row) (map lead rows)) z' / lead row"
proof -
  from square_Cons [OF assms] have
    lrow: "length row = Suc n" and lrows: "length rows = n" and
    rows: "\<forall>r\<in>set rows. length r = Suc n"
    by simp_all
  have ls: "length (vec_mean (tl row) (map lead rows)) = n"
    using lrow lrows by (simp add: length_vec_mean)
  show ?thesis
    using dot_schur_rows [OF rows ls, of "lead row" "vec_mean (tl row) (map lead rows)" z' z']
      ls lrows
    by (simp add: schur_def Let_def)
qed

lemma quad_decompose:
  assumes sq: "square (Suc n) (row # rows)" and nz: "lead row \<noteq> 0"
  shows "dot (mat_vec (row # rows) (z1 # z')) (z1 # z') =
           lead row * (z1 + dot (vec_mean (tl row) (map lead rows)) z' / lead row)\<^sup>2 +
           dot (mat_vec (schur row rows) z') z'"
  using nz by (simp add: quad_expand [OF sq] quad_schur [OF sq] power2_eq_square field_simps)

lemma mat_vec_zero_vector: "dot (mat_vec A (replicate n 0)) v = 0"
proof (induction A arbitrary: v)
  case Nil
  show ?case by (simp add: mat_vec_def)
next
  case (Cons r A)
  from Cons.IH show ?case by (cases v) (simp_all add: mat_vec_def dot_zero_right)
qed

lemma is_positive_definite_iff:
  "square D A \<Longrightarrow> is_positive_definite D A = positive_definite D A"
proof (induction D arbitrary: A)
  case 0
  show ?case by (simp add: positive_definite_def)
next
  case (Suc n)
  from Suc.prems obtain row rows where A: "A = row # rows"
    by (cases A) (simp_all add: square_def)
  with Suc.prems have sq: "square (Suc n) (row # rows)" by simp
  let ?a = "lead row"
  let ?s = "vec_mean (tl row) (map lead rows)"
  let ?S = "schur row rows"
  have IH: "is_positive_definite n ?S = positive_definite n ?S"
    using Suc.IH [OF square_schur [OF sq]] .
  show ?case
  proof
    assume "is_positive_definite (Suc n) A"
    with A IH have a: "0 < ?a" and S: "positive_definite n ?S" by simp_all
    show "positive_definite (Suc n) A"
      unfolding positive_definite_def
    proof (intro allI impI)
      fix z :: "real list"
      assume z: "length z = Suc n \<and> z \<noteq> replicate (Suc n) 0"
      then obtain z1 z' where zz: "z = z1 # z'" and lz': "length z' = n"
        by (cases z) auto
      have dec: "dot (mat_vec A z) z = ?a * (z1 + dot ?s z' / ?a)\<^sup>2 + dot (mat_vec ?S z') z'"
        using quad_decompose [OF sq, of z1 z'] a by (simp add: A zz)
      show "0 < dot (mat_vec A z) z"
      proof (cases "z' = replicate n 0")
        case True
        with z zz have "z1 \<noteq> 0" by auto
        with a have "0 < ?a * z1\<^sup>2" by simp
        with True show ?thesis by (simp add: dec dot_zero_right mat_vec_zero_vector)
      next
        case False
        with S lz' have "0 < dot (mat_vec ?S z') z'" by (simp add: positive_definite_def)
        moreover from a have "0 \<le> ?a * (z1 + dot ?s z' / ?a)\<^sup>2" by simp
        ultimately show ?thesis by (simp add: dec)
      qed
    qed
  next
    assume pd: "positive_definite (Suc n) A"
    have "dot (mat_vec A (1 # replicate n 0)) (1 # replicate n 0) = ?a"
      using quad_expand [OF sq, of 1 "replicate n 0"]
      by (simp add: A dot_zero_right mat_vec_zero_vector)
    moreover have "0 < dot (mat_vec A (1 # replicate n 0)) (1 # replicate n 0)"
      using pd by (simp add: positive_definite_def)
    ultimately have a: "0 < ?a" by simp
    have "positive_definite n ?S"
      unfolding positive_definite_def
    proof (intro allI impI)
      fix z' :: "real list"
      assume z': "length z' = n \<and> z' \<noteq> replicate n 0"
      let ?z1 = "- dot ?s z' / ?a"
      have "dot (mat_vec A (?z1 # z')) (?z1 # z') = dot (mat_vec ?S z') z'"
        using quad_decompose [OF sq, of ?z1 z'] a by (simp add: A)
      moreover have "0 < dot (mat_vec A (?z1 # z')) (?z1 # z')"
        using pd z' by (simp add: positive_definite_def)
      ultimately show "0 < dot (mat_vec ?S z') z'" by simp
    qed
    with a IH show "is_positive_definite (Suc n) A" by (simp add: A)
  qed
qed

lemma dot_sum: "length u = length v \<Longrightarrow> dot u v = (\<Sum>i<length u. u ! i * v ! i)"
  by (induction u v rule: list_induct2)
    (simp_all del: sum.lessThan_Suc add: sum.lessThan_Suc_shift)

lemma bilinear_sum:
  assumes sq: "square D A" and lu: "length u = D" and lv: "length v = D"
  shows "dot (mat_vec A u) v = (\<Sum>i<D. \<Sum>j<D. A ! i ! j * u ! j * v ! i)"
proof -
  from sq have lA: "length A = D" and rows: "\<forall>r\<in>set A. length r = D"
    by (simp_all add: square_def list_all_iff)
  have "dot (mat_vec A u) v = (\<Sum>i<D. mat_vec A u ! i * v ! i)"
    using dot_sum [of "mat_vec A u" v] lA lv by (simp add: mat_vec_def)
  also have "\<dots> = (\<Sum>i<D. (\<Sum>j<D. A ! i ! j * u ! j) * v ! i)"
  proof (rule sum.cong)
    fix i assume "i \<in> {..<D}"
    then have i: "i < length A" using lA by simp
    then have "length (A ! i) = length u" using rows lu by simp
    from dot_sum [OF this] i rows show "mat_vec A u ! i * v ! i = (\<Sum>j<D. A ! i ! j * u ! j) * v ! i"
      by (simp add: mat_vec_def)
  qed simp
  finally show ?thesis by (simp add: sum_distrib_right)
qed

lemma bilinear_symmetric:
  assumes sq: "square D A" and sym: "symmetric D A" and lu: "length u = D" and lv: "length v = D"
  shows "dot (mat_vec A u) v = dot (mat_vec A v) u"
proof -
  have "dot (mat_vec A v) u = (\<Sum>i<D. \<Sum>j<D. A ! i ! j * v ! j * u ! i)"
    by (rule bilinear_sum [OF sq lv lu])
  also have "\<dots> = (\<Sum>j<D. \<Sum>i<D. A ! i ! j * v ! j * u ! i)"
    by (rule sum.swap)
  also have "\<dots> = (\<Sum>j<D. \<Sum>i<D. A ! j ! i * u ! i * v ! j)"
    using sym by (intro sum.cong) (simp_all add: symmetric_def)
  also have "\<dots> = dot (mat_vec A u) v"
    by (rule bilinear_sum [OF sq lu lv, symmetric])
  finally show ?thesis by simp
qed

lemma dot_self_nonneg: "0 \<le> dot y y"
  by (induction y) simp_all

lemma dot_self_zero: "dot y y = 0 \<Longrightarrow> y = replicate (length y) 0"
proof (induction y)
  case Nil
  show ?case by simp
next
  case (Cons a y)
  have "0 \<le> a * a" by simp
  with Cons.prems dot_self_nonneg [of y] have "a * a = 0" and "dot y y = 0"
    by (simp_all add: add_nonneg_eq_0_iff)
  with Cons.IH show ?case by simp
qed

lemma dot_row_sub_right:
  "length cs = length as \<Longrightarrow> dot r (row_sub f cs as) = dot r cs - f * dot r as"
  using dot_row_sub [of cs as f r] by (simp add: dot_commute [of r])

lemma row_sub_map: "row_sub f (map g A) (map h A) = map (\<lambda>r. g r - f * h r) A"
  by (induction A) simp_all

lemma mat_vec_row_sub:
  "length u = length w \<Longrightarrow> mat_vec A (row_sub f u w) = row_sub f (mat_vec A u) (mat_vec A w)"
  by (simp add: mat_vec_def row_sub_map dot_row_sub_right)

lemma quad_row_sub:
  assumes "length u = length w"
  shows "dot (mat_vec A (row_sub f u w)) (row_sub f u w) =
           dot (mat_vec A u) u - f * dot (mat_vec A u) w - f * dot (mat_vec A w) u +
           f * f * dot (mat_vec A w) w"
proof -
  have "length (mat_vec A u) = length (mat_vec A w)" by (simp add: mat_vec_def)
  then show ?thesis
    by (simp add: mat_vec_row_sub [OF assms] dot_row_sub dot_row_sub_right [OF assms]
        algebra_simps)
qed

lemma semidefinite_kernel:
  assumes sq: "square D A" and sym: "symmetric D A" and psd: "positive_semidefinite D A"
    and lz: "length z = D" and q0: "dot (mat_vec A z) z = 0"
  shows "mat_vec A z = replicate D 0"
proof -
  let ?y = "mat_vec A z"
  let ?n = "dot ?y ?y"
  let ?Q = "dot (mat_vec A ?y) ?y"
  from sq have ly: "length ?y = D" by (simp add: mat_vec_def square_def)
  have Q: "0 \<le> ?Q" using psd ly by (simp add: positive_semidefinite_def)
  have n: "0 \<le> ?n" by (rule dot_self_nonneg)
  define t where "t = ?n / (?Q + 1)"
  have lzy: "length z = length ?y" using lz ly by simp
  have "length (row_sub t z ?y) = D" using lz ly by (simp add: length_row_sub)
  with psd have "0 \<le> dot (mat_vec A (row_sub t z ?y)) (row_sub t z ?y)"
    by (simp add: positive_semidefinite_def)
  also have "dot (mat_vec A (row_sub t z ?y)) (row_sub t z ?y) =
               - 2 * t * ?n + t * t * ?Q"
    using bilinear_symmetric [OF sq sym ly lz] q0
    by (simp add: quad_row_sub [OF lzy])
  finally have ineq: "0 \<le> - 2 * t * ?n + t * t * ?Q" .
  have "?n = 0"
  proof (rule ccontr)
    assume "?n \<noteq> 0"
    with n have npos: "0 < ?n" by simp
    with Q have tpos: "0 < t" by (simp add: t_def)
    have "t * ?Q < ?n"
    proof -
      have "t * ?Q = ?n * (?Q / (?Q + 1))" by (simp add: t_def)
      also have "\<dots> < ?n * 1"
        using npos Q by (intro mult_strict_left_mono) simp_all
      finally show ?thesis by simp
    qed
    then have "t * ?Q < 2 * ?n" using npos by simp
    then have "t * (t * ?Q) < t * (2 * ?n)" using tpos by (rule mult_strict_left_mono)
    with ineq show False by (simp add: algebra_simps)
  qed
  from dot_self_zero [OF this] ly show ?thesis by simp
qed

lemma definite_of_semidefinite:
  assumes sq: "square D A" and sym: "symmetric D A" and psd: "positive_semidefinite D A"
    and reg: "\<not> singular D A"
  shows "positive_definite D A"
  unfolding positive_definite_def
proof (intro allI impI)
  fix z :: "real list"
  assume z: "length z = D \<and> z \<noteq> replicate D 0"
  with psd have ge: "0 \<le> dot (mat_vec A z) z" by (simp add: positive_semidefinite_def)
  have "dot (mat_vec A z) z \<noteq> 0"
  proof
    assume "dot (mat_vec A z) z = 0"
    with semidefinite_kernel [OF sq sym psd] z have "mat_vec A z = replicate D 0" by simp
    with z reg show False by (auto simp: singular_def)
  qed
  with ge show "0 < dot (mat_vec A z) z" by simp
qed

lemma definite_regular:
  assumes "positive_definite D A"
  shows "\<not> singular D A"
proof
  assume "singular D A"
  then obtain z where
    z: "length z = D \<and> z \<noteq> replicate D 0" and Az: "mat_vec A z = replicate D 0"
    by (auto simp: singular_def)
  from assms z have "0 < dot (mat_vec A z) z" by (simp add: positive_definite_def)
  with Az show False by (simp add: dot_zero_left)
qed

section \<open>Properties of the distance\<close>

lemma Evaluate_singular:
  assumes "square D (m_Covariance M)" and "singular D (m_Covariance M)"
    and "length (m_Mean M) = D" and "length x = D"
  shows "Evaluate M x = Inl NumericalError"
  using assms by (simp add: Evaluate_def solve_singular)


lemma Evaluate_not_definite:
  assumes "square D (m_Covariance M)" and "\<not> positive_definite D (m_Covariance M)"
    and "length (m_Mean M) = D" and "length x = D"
  shows "Evaluate M x = Inl NumericalError"
  using assms by (simp add: Evaluate_def is_positive_definite_iff)

lemma Evaluate_definite:
  assumes sq: "square D (m_Covariance M)" and pd: "positive_definite D (m_Covariance M)"
    and lm: "length (m_Mean M) = D" and lx: "length x = D"
  shows "\<exists>z. length z = D \<and> mat_vec (m_Covariance M) z = vec_sub x (m_Mean M) \<and>
             Evaluate M x = Inr (sqrt (dot (mat_vec (m_Covariance M) z) z))"
proof -
  have "length (vec_sub x (m_Mean M)) = D" using lm lx by (simp add: length_vec_sub)
  from solve_regular [OF sq definite_regular [OF pd] this] obtain z where
    z: "solve D (zip (m_Covariance M) (vec_sub x (m_Mean M))) = Some z" and
    lz: "length z = D" and Az: "mat_vec (m_Covariance M) z = vec_sub x (m_Mean M)"
    by blast
  show ?thesis
    using sq pd lm lx z lz Az
    by (intro exI [of _ z]) (simp add: Evaluate_def is_positive_definite_iff)
qed

lemma Evaluate_mean:
  assumes sq: "square D (m_Covariance M)" and pd: "positive_definite D (m_Covariance M)"
    and lm: "length (m_Mean M) = D"
  shows "Evaluate M (m_Mean M) = Inr 0"
proof -
  have ly: "length (replicate D (0::real)) = D" by simp
  from solve_regular [OF sq definite_regular [OF pd] ly] obtain z where
    "solve D (zip (m_Covariance M) (replicate D 0)) = Some z" by blast
  then show ?thesis
    using sq pd lm by (simp add: Evaluate_def is_positive_definite_iff vec_sub_self dot_zero_left)
qed

text \<open>
  A covariance that is not positive definite is an error at every feature vector, the
  mean included, also where the quadratic form at that vector is not negative.
\<close>

lemma Evaluate_negative_variance:
  "Evaluate \<lparr>m_Mean = [0], m_Covariance = [[- 1]]\<rparr> [0] = Inl NumericalError"
  "Evaluate \<lparr>m_Mean = [0], m_Covariance = [[- 1]]\<rparr> [1] = Inl NumericalError"
  by (simp_all add: Evaluate_def square_def)

lemma Evaluate_indefinite:
  "Evaluate \<lparr>m_Mean = [0, 0], m_Covariance = [[1, 0], [0, - 1]]\<rparr> [1, 0] = Inl NumericalError"
  by (simp add: Evaluate_def square_def schur_def)

text \<open>
  The scenarios of the specification: one channel with mean \<open>0\<close> and variance \<open>1\<close>
  gives the feature value \<open>1.8\<close> the distance \<open>1.8\<close>; two channels with the identity
  as covariance give \<open>(3, 4)\<close> the distance \<open>5\<close>; a feature vector of three components
  against a mean of two is a \<open>ConfigurationError\<close>.
\<close>

lemma scenario_one_channel:
  "Evaluate \<lparr>m_Mean = [0], m_Covariance = [[1]]\<rparr> [1.8] = Inr 1.8"
proof -
  have "sqrt (81 / 25) = 9 / 5"
    by (rule real_sqrt_unique) (simp_all add: power2_eq_square)
  then show ?thesis by (simp add: Evaluate_def square_def eliminate_def schur_def)
qed

lemma scenario_two_channels:
  "Evaluate \<lparr>m_Mean = [0, 0], m_Covariance = [[1, 0], [0, 1]]\<rparr> [3, 4] = Inr 5"
  by (simp add: Evaluate_def square_def eliminate_def schur_def numeral_2_eq_2
      real_sqrt_unique)

lemma scenario_mismatch:
  "Evaluate \<lparr>m_Mean = [0, 0], m_Covariance = [[1, 0], [0, 1]]\<rparr> [3, 4, 5] = Inl ConfigurationError"
  by (simp add: Evaluate_def)

section \<open>Properties of the sweep over the feature image\<close>

lemma speed_sweep_frame:
  "speed_sweep M T p xs S = Inr S' \<Longrightarrow> j < p \<Longrightarrow> S' j = S j"
proof (induction xs arbitrary: p S)
  case Nil
  then show ?case by simp
next
  case (Cons x xs)
  from Cons.prems(1) obtain d where
    "speed_sweep M T (Suc p) xs (S(p := T - d)) = Inr S'"
    by (auto split: sum.splits)
  from Cons.IH [OF this] Cons.prems(2) show ?case by simp
qed

lemma speed_sweep_values:
  "speed_sweep M T p xs S = Inr S' \<Longrightarrow> i < length xs \<Longrightarrow>
     \<exists>d. Evaluate M (xs ! i) = Inr d \<and> S' (p + i) = T - d"
proof (induction xs arbitrary: p S i)
  case Nil
  then show ?case by simp
next
  case (Cons x xs)
  from Cons.prems(1) obtain d where
    d: "Evaluate M x = Inr d" and
    rest: "speed_sweep M T (Suc p) xs (S(p := T - d)) = Inr S'"
    by (auto split: sum.splits)
  show ?case
  proof (cases i)
    case 0
    from speed_sweep_frame [OF rest, of p] d show ?thesis by (simp add: 0)
  next
    case (Suc k)
    with Cons.prems(2) have "k < length xs" by simp
    from Cons.IH [OF rest this] show ?thesis by (simp add: Suc)
  qed
qed

lemma speed_sweep_returns:
  "\<forall>x\<in>set xs. \<exists>d. Evaluate M x = Inr d \<Longrightarrow> \<exists>S'. speed_sweep M T p xs S = Inr S'"
proof (induction xs arbitrary: p S)
  case Nil
  show ?case by simp
next
  case (Cons x xs)
  from Cons.prems obtain d where d: "Evaluate M x = Inr d" by auto
  from Cons.prems have "\<forall>x\<in>set xs. \<exists>d. Evaluate M x = Inr d" by simp
  from Cons.IH [OF this, of "Suc p" "S(p := T - d)"] obtain S' where
    "speed_sweep M T (Suc p) xs (S(p := T - d)) = Inr S'"
    by blast
  with d show ?case by simp
qed

lemma speed_sweep_overwrites:
  "speed_sweep M T p xs S = Inr S' \<Longrightarrow>
     \<exists>S''. speed_sweep M T p xs S2 = Inr S'' \<and>
           (\<forall>j. S'' j = (if p \<le> j \<and> j < p + length xs then S' j else S2 j))"
proof (induction xs arbitrary: p S S2)
  case Nil
  show ?case by simp
next
  case (Cons x xs)
  from Cons.prems obtain d where
    d: "Evaluate M x = Inr d" and
    rest: "speed_sweep M T (Suc p) xs (S(p := T - d)) = Inr S'"
    by (auto split: sum.splits)
  from Cons.IH [OF rest, of "S2(p := T - d)"] obtain S'' where
    run: "speed_sweep M T (Suc p) xs (S2(p := T - d)) = Inr S''" and
    val: "\<forall>j. S'' j = (if Suc p \<le> j \<and> j < Suc p + length xs then S' j
                          else (S2(p := T - d)) j)"
    by blast
  from speed_sweep_frame [OF rest, of p] have Sp: "S' p = T - d" by simp
  have "\<forall>j. S'' j = (if p \<le> j \<and> j < p + length (x # xs) then S' j else S2 j)"
  proof
    fix j
    show "S'' j = (if p \<le> j \<and> j < p + length (x # xs) then S' j else S2 j)"
      using val [rule_format, of j] Sp by (cases "j = p") auto
  qed
  with run d show ?case by simp
qed

lemma speed_sweep_idem:
  assumes "speed_sweep M T p xs S = Inr S'"
  shows "speed_sweep M T p xs S' = Inr S'"
proof -
  from speed_sweep_overwrites [OF assms, of S'] obtain S'' where
    run: "speed_sweep M T p xs S' = Inr S''" and
    val: "\<forall>j. S'' j = (if p \<le> j \<and> j < p + length xs then S' j else S' j)"
    by blast
  from val have "S'' = S'" by (intro ext) simp
  with run show ?thesis by simp
qed

section \<open>Properties of the object state\<close>

lemmas weight_setters =
  SetAdvectionWeight_def SetPropagationWeight_def SetCurvatureWeight_def

lemma floor_log2_binade: "1 \<le> x \<Longrightarrow> x < 2 \<Longrightarrow> \<lfloor>log 2 x\<rfloor> = 0"
proof -
  assume a: "1 \<le> x" "x < 2"
  then have "0 \<le> log 2 x" by simp
  moreover from a have "log 2 x < 1" by (simp add: less_powr_iff log_less_iff)
  ultimately show ?thesis by (simp add: floor_eq_iff)
qed

lemma double_literal_zero: "double_literal 0 = 0"
  by (simp add: double_literal_def round_to_binary_def)

lemma double_literal_one: "double_literal 1 = 1"
  by (simp add: double_literal_def round_to_binary_def pow2_def round_half_even_def)

lemma double_literal_1_8: "double_literal 1.8 = 8106479329266893 / 4503599627370496"
proof -
  have "\<lfloor>log 2 \<bar>1.8::real\<bar>\<rfloor> = 0" by (rule floor_log2_binade) simp_all
  then show ?thesis
    by (simp add: double_literal_def round_to_binary_def pow2_def round_half_even_def)
qed

lemma double_literal_9_5: "double_literal (9 / 5) = 8106479329266893 / 4503599627370496"
  using double_literal_1_8 by simp

lemma float_of_double_1_8:
  "round_to_binary 24 (- 126) (8106479329266893 / 4503599627370496) = 7549747 / 4194304"
proof -
  have "\<lfloor>log 2 \<bar>8106479329266893 / 4503599627370496 :: real\<bar>\<rfloor> = 0"
    by (rule floor_log2_binade) simp_all
  then show ?thesis
    by (simp add: round_to_binary_def pow2_def round_half_even_def)
qed

lemma of_double_zero: "of_double S 0 = 0"
  by (cases S) (simp_all add: of_double_def round_to_binary_def)

lemma of_double_one: "of_double S 1 = 1"
  by (cases S) (simp_all add: of_double_def round_to_binary_def pow2_def round_half_even_def)

lemmas literal_simps =
  double_literal_zero double_literal_one of_double_zero of_double_one

lemma Constructor_mahalanobis:
  "m_Mahalanobis (Constructor S T base) =
     \<lparr>m_Mean = replicate (GetImageDimension T) 0,
      m_Covariance = replicate (GetImageDimension T) (replicate (GetImageDimension T) 0)\<rparr>"
  by (simp add: Constructor_def SetThreshold_def weight_setters Mahalanobis_New_def
      Mahalanobis_SetMean_def Mahalanobis_SetCovariance_def SegmentationLevelSetFunction.defs)

lemmas state_defs =
  Constructor_def SetThreshold_def GetThreshold_def SetMean_def GetMean_def SetCovariance_def
  GetCovariance_def weight_setters Mahalanobis_New_def Mahalanobis_SetMean_def
  Mahalanobis_SetCovariance_def SegmentationLevelSetFunction.defs

lemma example_function_simps:
  "m_Mahalanobis example_function = \<lparr>m_Mean = [0], m_Covariance = [[1]]\<rparr>"
  "m_Threshold example_function = 2"
  "m_FeatureImage example_function = [[2], [1]]"
  "m_SpeedImage example_function = (\<lambda>p. 0)"
  by (simp_all add: example_function_def example_base_def state_defs)



lemma Evaluate_example_function:
  "Evaluate (m_Mahalanobis example_function) [2] = Inr 2"
  "Evaluate (m_Mahalanobis example_function) [1] = Inr 1"
  by (simp_all add: example_function_simps Evaluate_def square_def eliminate_def schur_def)

lemma zero_matrix_square: "square D (replicate D (replicate D 0))"
  by (simp add: square_def list_all_iff)

lemma zero_matrix_singular: "0 < D \<Longrightarrow> singular D (replicate D (replicate D 0))"
  unfolding singular_def
proof (intro exI [of _ "replicate D 1"] conjI)
  assume "0 < D"
  then show "replicate D (1::real) \<noteq> replicate D 0" by (cases D) simp_all
  show "mat_vec (replicate D (replicate D 0)) (replicate D 1) = replicate D 0"
    by (simp add: mat_vec_def dot_zero_left)
qed simp

lemma CalculateSpeedImage_example:
  "CalculateSpeedImage example_function = Inr example_result"
  by (simp add: CalculateSpeedImage_def example_result_def example_function_simps(2,3,4)
      Evaluate_example_function)

text \<open>
  Claim C2: after any call \<open>Initialize(r)\<close> the advection weight is \<open>0\<close>, the
  propagation weight is \<open>-1\<close> and the curvature weight is \<open>+1\<close>, whatever the state of
  the object was before and whatever the initialisation of the superclass did.
\<close>

theorem Initialize_weights:
  "m_AdvectionWeight (Initialize Superclass_Initialize r this) = 0 \<and>
   m_PropagationWeight (Initialize Superclass_Initialize r this) = - 1 \<and>
   m_CurvatureWeight (Initialize Superclass_Initialize r this) = 1"
  by (simp add: Initialize_def weight_setters)

text \<open>
  Claim C3, as stated: the constructor sets the propagation weight to \<open>+1\<close> and
  \<open>Initialize\<close> sets it to \<open>-1\<close>, and the curvature weight is set to \<open>+1\<close> on both
  paths. The constructor stores no curvature weight: over superclass members whose
  curvature weight is \<open>0\<close>, the constructed object has the curvature weight \<open>0\<close>.
\<close>

theorem Constructor_curvature_counterexample:
  "m_CurvatureWeight (Constructor Float example_type example_base) \<noteq> 1"
  by (simp add: Constructor_def SetThreshold_def weight_setters example_base_def
      SegmentationLevelSetFunction.defs)

text \<open>
  Claim C3, amended: the constructor sets the propagation weight to \<open>+1\<close> and leaves the
  curvature weight as the constructors of the superclasses left it; \<open>Initialize\<close> sets
  the propagation weight to \<open>-1\<close> and the curvature weight to \<open>+1\<close>.
\<close>

theorem Constructor_Initialize_weights:
  "m_PropagationWeight (Constructor S T base) = 1 \<and>
   m_CurvatureWeight (Constructor S T base) = m_CurvatureWeight base \<and>
   m_PropagationWeight (Initialize Superclass_Initialize r this) = - 1 \<and>
   m_CurvatureWeight (Initialize Superclass_Initialize r this) = 1"
  by (simp add: Constructor_def SetThreshold_def Initialize_def weight_setters literal_simps
      SegmentationLevelSetFunction.defs)

text \<open>
  Claim C4: at construction the mean vector of the distance model is all zero and has as
  many entries as a feature pixel has channels. The constructor sizes the mean by
  \<open>GetImageDimension()\<close>, the number of spatial axes: for a two-dimensional image of
  three-channel pixels the mean has two entries, not three.
\<close>

theorem Constructor_mean_example:
  "GetMean (Constructor S example_type example_base) = [0, 0] \<and>
   length (GetMean (Constructor S example_type example_base)) \<noteq> NumberOfComponents example_type"
  by (simp add: GetMean_def Constructor_mahalanobis example_type_def numeral_2_eq_2)

text \<open>
  Claim C5, as stated: a freshly constructed object has the threshold \<open>1.8\<close>, and
  \<open>GetThreshold()\<close> returns \<open>1.8\<close> before any call of \<open>SetThreshold\<close>. The
  constructor passes the \<open>double\<close> literal \<open>1.8\<close> to the \<open>ScalarValueType\<close> parameter
  of \<open>SetThreshold\<close>. With \<open>ScalarValueType\<close> the type \<open>float\<close> the stored threshold
  is the \<open>float\<close> nearest to the literal, \<open>7549747 / 4194304\<close>, which is neither the
  \<open>double\<close> \<open>1.8\<close> nor the number \<open>1.8\<close>.
\<close>

theorem Constructor_threshold_counterexample:
  "GetThreshold (Constructor Float example_type example_base) = 7549747 / 4194304 \<and>
   GetThreshold (Constructor Float example_type example_base) \<noteq> double_literal 1.8 \<and>
   GetThreshold (Constructor Float example_type example_base) \<noteq> 1.8"
  by (simp add: Constructor_def GetThreshold_def SetThreshold_def of_double_def
      double_literal_9_5 float_of_double_1_8)

text \<open>
  Claim C5, amended: a freshly constructed object has as threshold the \<open>double\<close>
  literal \<open>1.8\<close> converted to \<open>ScalarValueType\<close>, and \<open>GetThreshold()\<close> returns that
  value before any call of \<open>SetThreshold\<close>: the \<open>double\<close> \<open>1.8\<close> itself,
  \<open>8106479329266893 / 4503599627370496\<close>, when \<open>ScalarValueType\<close> is \<open>double\<close>, and
  the \<open>float\<close> nearest to it, \<open>7549747 / 4194304\<close>, when \<open>ScalarValueType\<close> is
  \<open>float\<close>.
\<close>

theorem Constructor_threshold:
  "GetThreshold (Constructor S T base) = of_double S (double_literal 1.8) \<and>
   GetThreshold (Constructor Double T base) = double_literal 1.8 \<and>
   double_literal 1.8 = 8106479329266893 / 4503599627370496 \<and>
   GetThreshold (Constructor Float T base) = 7549747 / 4194304"
  by (simp add: Constructor_def GetThreshold_def SetThreshold_def of_double_def
      double_literal_9_5 float_of_double_1_8)

text \<open>
  Claim C6: for every scalar \<open>t\<close> and every state of the object, \<open>GetThreshold()\<close>
  after \<open>SetThreshold(t)\<close> returns exactly \<open>t\<close>; \<open>SetThreshold\<close> stores the value
  and does nothing else: the distance model and the members of the superclass stay as
  they were.
\<close>

theorem SetThreshold_GetThreshold:
  "GetThreshold (SetThreshold t this) = t \<and>
   m_Mahalanobis (SetThreshold t this) = m_Mahalanobis this \<and>
   SegmentationLevelSetFunction.truncate (SetThreshold t this) =
     SegmentationLevelSetFunction.truncate this"
  by (simp add: GetThreshold_def SetThreshold_def SegmentationLevelSetFunction.defs)

section \<open>Properties of the speed image and of the distance\<close>

text \<open>
  Claim C1: for every pixel \<open>p\<close> of the feature image, \<open>CalculateSpeedImage\<close> writes
  into the speed image at \<open>p\<close> the threshold minus the Mahalanobis distance of the feature
  vector at \<open>p\<close>. When the distance of every feature vector has a value, the computation
  returns, and the speed image it returns holds that difference at each pixel.
\<close>

theorem CalculateSpeedImage_speed:
  assumes "\<forall>x\<in>set (m_FeatureImage this). \<exists>d. Evaluate (m_Mahalanobis this) x = Inr d"
  shows "\<exists>this'. CalculateSpeedImage this = Inr this' \<and>
           (\<forall>p<length (m_FeatureImage this).
              \<exists>d. Evaluate (m_Mahalanobis this) (m_FeatureImage this ! p) = Inr d \<and>
                  m_SpeedImage this' p = m_Threshold this - d)"
proof -
  from speed_sweep_returns [OF assms] obtain S' where
    run: "speed_sweep (m_Mahalanobis this) (m_Threshold this) 0 (m_FeatureImage this)
            (m_SpeedImage this) = Inr S'"
    by blast
  have "\<forall>p<length (m_FeatureImage this).
          \<exists>d. Evaluate (m_Mahalanobis this) (m_FeatureImage this ! p) = Inr d \<and>
              S' p = m_Threshold this - d"
    using speed_sweep_values [OF run] by simp
  with run show ?thesis by (simp add: CalculateSpeedImage_def)
qed

text \<open>
  Claim C1 at \<open>example_function\<close>: threshold \<open>2\<close>, distances \<open>2\<close> and \<open>1\<close>.
\<close>

theorem CalculateSpeedImage_speed_witness:
  "m_FeatureImage example_function = [[2], [1]] \<and>
   Evaluate (m_Mahalanobis example_function) [2] = Inr 2 \<and>
   Evaluate (m_Mahalanobis example_function) [1] = Inr 1 \<and>
   (\<exists>this'. CalculateSpeedImage example_function = Inr this' \<and>
      m_SpeedImage this' 0 = 2 - 2 \<and> m_SpeedImage this' 1 = 2 - 1)"
proof -
  have h: "\<forall>x\<in>set (m_FeatureImage example_function).
             \<exists>d. Evaluate (m_Mahalanobis example_function) x = Inr d"
    by (simp add: example_function_simps(3) Evaluate_example_function)
  from CalculateSpeedImage_speed [OF h] obtain this' where
    run: "CalculateSpeedImage example_function = Inr this'" and
    val: "\<forall>p<length (m_FeatureImage example_function).
            \<exists>d. Evaluate (m_Mahalanobis example_function) (m_FeatureImage example_function ! p) = Inr d \<and>
                m_SpeedImage this' p = m_Threshold example_function - d"
    by blast
  from val [rule_format, of 0] have "m_SpeedImage this' 0 = 2 - 2"
    by (simp add: example_function_simps(2,3) Evaluate_example_function)
  moreover from val [rule_format, of 1] have "m_SpeedImage this' 1 = 2 - 1"
    by (simp add: example_function_simps(2,3) Evaluate_example_function)
  ultimately show ?thesis
    using run example_function_simps(3) Evaluate_example_function by blast
qed




text \<open>
  Claim C8: for every mean vector, covariance matrix and feature vector of one matching
  dimension \<open>D\<close> with the covariance invertible, the distance function returns a scalar
  that is not negative, and it returns exactly \<open>0\<close> when the feature vector is the mean.
  A covariance matrix is what the data model makes of it: a \<open>D \<times> D\<close> matrix that is
  symmetric and positive semi-definite. Invertible is not singular: only the zero vector
  is sent to zero, and then every right-hand side has exactly one solution
  (\<open>solve_regular\<close>, \<open>solve_inverse\<close>).
\<close>

theorem Evaluate_nonnegative:
  assumes sq: "square D (m_Covariance M)" and sym: "symmetric D (m_Covariance M)"
    and psd: "positive_semidefinite D (m_Covariance M)"
    and reg: "\<not> singular D (m_Covariance M)"
    and lm: "length (m_Mean M) = D" and lx: "length x = D"
  shows "(\<exists>d. Evaluate M x = Inr d \<and> 0 \<le> d) \<and> Evaluate M (m_Mean M) = Inr 0"
proof -
  have pd: "positive_definite D (m_Covariance M)"
    by (rule definite_of_semidefinite [OF sq sym psd reg])
  from Evaluate_definite [OF sq pd lm lx] obtain z where
    lz: "length z = D" and
    ev: "Evaluate M x = Inr (sqrt (dot (mat_vec (m_Covariance M) z) z))"
    by blast
  from psd lz have "0 \<le> dot (mat_vec (m_Covariance M) z) z"
    by (simp add: positive_semidefinite_def)
  with ev have "\<exists>d. Evaluate M x = Inr d \<and> 0 \<le> d" by simp
  with Evaluate_mean [OF sq pd lm] show ?thesis by simp
qed

text \<open>
  Claim C8 at \<open>example_model\<close>: the distance of \<open>[3, 4]\<close> from the origin under the
  identity is \<open>5\<close>.
\<close>

theorem Evaluate_nonnegative_witness:
  "square 2 (m_Covariance example_model) \<and>
   symmetric 2 (m_Covariance example_model) \<and>
   positive_semidefinite 2 (m_Covariance example_model) \<and>
   \<not> singular 2 (m_Covariance example_model) \<and>
   length (m_Mean example_model) = 2 \<and> length [3, 4 :: real] = 2 \<and>
   (\<exists>d. Evaluate example_model [3, 4] = Inr d \<and> 0 \<le> d) \<and>
   Evaluate example_model (m_Mean example_model) = Inr 0 \<and>
   Evaluate example_model [3, 4] = Inr 5"
proof -
  have sq: "square 2 (m_Covariance example_model)"
    by (simp add: example_model_def square_def)
  have sym: "symmetric 2 (m_Covariance example_model)"
    by (simp add: example_model_def symmetric_def numeral_2_eq_2 less_Suc_eq)
  have psd: "positive_semidefinite 2 (m_Covariance example_model)"
    by (auto simp: example_model_def positive_semidefinite_def mat_vec_def length_Suc_conv
        numeral_2_eq_2)
  have reg: "\<not> singular 2 (m_Covariance example_model)"
    by (auto simp: example_model_def singular_def mat_vec_def length_Suc_conv numeral_2_eq_2)
  have lm: "length (m_Mean example_model) = 2"
    by (simp add: example_model_def)
  have lx: "length [3, 4 :: real] = 2" by simp
  have five: "Evaluate example_model [3, 4] = Inr 5"
    by (simp add: example_model_def Evaluate_def square_def eliminate_def schur_def
        numeral_2_eq_2 real_sqrt_unique)
  from Evaluate_nonnegative [OF sq sym psd reg lm lx] sq sym psd reg lm lx five
  show ?thesis by blast
qed

text \<open>
  Claim C9: two calls of the speed computation in immediate succession, with the mean, the
  covariance, the threshold and the feature image unchanged, give the same speed image:
  the second call returns the very object it was given. The second call overwrites: from
  any prior content of the speed image the computation gives the same value at every
  pixel of the feature image.
\<close>

theorem CalculateSpeedImage_twice:
  assumes "CalculateSpeedImage this = Inr this'"
  shows "CalculateSpeedImage this' = Inr this' \<and>
         (\<forall>S. \<exists>this''. CalculateSpeedImage (this\<lparr>m_SpeedImage := S\<rparr>) = Inr this'' \<and>
                (\<forall>p<length (m_FeatureImage this). m_SpeedImage this'' p = m_SpeedImage this' p))"
proof -
  from assms obtain S' where
    run: "speed_sweep (m_Mahalanobis this) (m_Threshold this) 0 (m_FeatureImage this)
            (m_SpeedImage this) = Inr S'" and
    this': "this' = this\<lparr>m_SpeedImage := S'\<rparr>"
    by (auto simp: CalculateSpeedImage_def split: sum.splits)
  have again: "CalculateSpeedImage this' = Inr this'"
    using speed_sweep_idem [OF run] by (simp add: CalculateSpeedImage_def this')
  have "\<exists>this''. CalculateSpeedImage (this\<lparr>m_SpeedImage := S\<rparr>) = Inr this'' \<and>
          (\<forall>p<length (m_FeatureImage this). m_SpeedImage this'' p = m_SpeedImage this' p)" for S
  proof -
    from speed_sweep_overwrites [OF run, of S] obtain S'' where
      "speed_sweep (m_Mahalanobis this) (m_Threshold this) 0 (m_FeatureImage this) S = Inr S''"
      and "\<forall>j. S'' j = (if 0 \<le> j \<and> j < 0 + length (m_FeatureImage this) then S' j else S j)"
      by blast
    then show ?thesis by (simp add: CalculateSpeedImage_def this')
  qed
  with again show ?thesis by blast
qed


text \<open>
  Claim C9 at \<open>example_function\<close>.
\<close>

theorem CalculateSpeedImage_twice_witness:
  "CalculateSpeedImage example_function = Inr example_result \<and>
   CalculateSpeedImage example_result = Inr example_result \<and>
   (\<forall>S. \<exists>this''. CalculateSpeedImage (example_function\<lparr>m_SpeedImage := S\<rparr>) = Inr this'' \<and>
          (\<forall>p<length (m_FeatureImage example_function).
             m_SpeedImage this'' p = m_SpeedImage example_result p))"
  using CalculateSpeedImage_twice [OF CalculateSpeedImage_example] CalculateSpeedImage_example
  by simp

text \<open>
  Claim C10: the distance model of a freshly constructed object holds a covariance matrix
  filled with zeros, of \<open>D\<close> rows and columns with \<open>D\<close> the value of
  \<open>GetImageDimension()\<close>; it is singular, and a distance evaluation before any call of
  \<open>SetCovariance\<close> cannot succeed: it fails for every feature vector, with a
  \<open>NumericalError\<close> when the vector has \<open>D\<close> components. An image has at least one
  axis.
\<close>

theorem Constructor_covariance_singular:
  assumes "0 < GetImageDimension T"
  shows "GetCovariance (Constructor S T base) =
           replicate (GetImageDimension T) (replicate (GetImageDimension T) 0) \<and>
         singular (GetImageDimension T) (GetCovariance (Constructor S T base)) \<and>
         (\<forall>x. \<exists>e. Evaluate (m_Mahalanobis (Constructor S T base)) x = Inl e) \<and>
         (\<forall>x. length x = GetImageDimension T \<longrightarrow>
              Evaluate (m_Mahalanobis (Constructor S T base)) x = Inl NumericalError)"
proof -
  let ?D = "GetImageDimension T"
  let ?M = "m_Mahalanobis (Constructor S T base)"
  have cov: "m_Covariance ?M = replicate ?D (replicate ?D 0)"
    and mean: "length (m_Mean ?M) = ?D"
    by (simp_all add: Constructor_mahalanobis)
  have sing: "singular ?D (m_Covariance ?M)"
    using zero_matrix_singular [OF assms] by (simp add: cov)
  have sq: "square ?D (m_Covariance ?M)"
    using zero_matrix_square by (simp add: cov)
  have num: "Evaluate ?M x = Inl NumericalError" if "length x = ?D" for x
    using Evaluate_singular [OF sq sing mean that] .
  have "\<exists>e. Evaluate ?M x = Inl e" for x
  proof (cases "length x = ?D")
    case True
    with num show ?thesis by blast
  next
    case False
    with mean show ?thesis by (simp add: Evaluate_def)
  qed
  with cov sing num show ?thesis by (simp add: GetCovariance_def)
qed

text \<open>
  Claim C10 at the two-dimensional \<open>example_type\<close>.
\<close>

theorem Constructor_covariance_singular_witness:
  "0 < GetImageDimension example_type \<and>
   GetCovariance (Constructor Float example_type example_base) = [[0, 0], [0, 0]] \<and>
   singular 2 (GetCovariance (Constructor Float example_type example_base)) \<and>
   Evaluate (m_Mahalanobis (Constructor Float example_type example_base)) [3, 4] = Inl NumericalError \<and>
   (\<exists>e. Evaluate (m_Mahalanobis (Constructor Float example_type example_base)) [3, 4, 5] = Inl e)"
proof -
  have h: "0 < GetImageDimension example_type" by (simp add: example_type_def)
  have D: "GetImageDimension example_type = 2" by (simp add: example_type_def)
  note inst = Constructor_covariance_singular [OF h, of Float example_base, unfolded D]
  from inst have "GetCovariance (Constructor Float example_type example_base) =
                    replicate 2 (replicate 2 0)"
    by (rule conjunct1)
  then have cov: "GetCovariance (Constructor Float example_type example_base) = [[0, 0], [0, 0]]"
    by (simp add: numeral_2_eq_2)
  from inst have
    sing: "singular 2 (GetCovariance (Constructor Float example_type example_base))" and
    err: "\<forall>x. \<exists>e. Evaluate (m_Mahalanobis (Constructor Float example_type example_base)) x = Inl e" and
    num: "\<forall>x. length x = 2 \<longrightarrow>
            Evaluate (m_Mahalanobis (Constructor Float example_type example_base)) x = Inl NumericalError"
    by blast+
  from num have "Evaluate (m_Mahalanobis (Constructor Float example_type example_base)) [3, 4] =
                   Inl NumericalError"
    by simp
  with h cov sing err show ?thesis by blast
qed

end
